theory Spec2Isabelle
  imports Complex_Main
begin

section \<open>The Cohere embedding adapter for AWS Bedrock\<close>

text \<open>
  A shallow embedding of the class \<open>CohereBedrockEmbeddings\<close>: its constructor, the private
  helpers \<open>invokeCohere\<close>, \<open>extractEmbeddings\<close> and \<open>batchTexts\<close>, and the two public
  operations \<open>embedDocuments\<close> and \<open>embedQuery\<close>.

  Conventions of the embedding.
  \<^item> A value produced by \<open>JSON.parse\<close> (or read out of one) is a \<open>js_value\<close>. Numbers are
    opaque to the adapter, so their type is the parameter \<open>'n\<close>. An object is the list of
    its own properties; its keys are distinct, as in every parsed object.
  \<^item> A thrown exception or a rejected promise is the left summand of a sum type.
  \<^item> The Bedrock client, and the retrying caller that the class inherits from the LangChain
    base class \<open>Embeddings\<close>, are libraries outside the repository. Both are fields of the
    adapter and stay arbitrary functions. They act on a state \<open>'w\<close> (the network, the
    service, the clock) that is threaded through every call.
  \<^item> JSON text is represented by the value it denotes: the body of a command is the object
    given to \<open>JSON.stringify\<close>, and the client answers with the value that
    \<open>JSON.parse\<close> yields on the decoded response body (a body that is not JSON is one of
    the errors of the client).
  \<^item> \<open>batchSize\<close> and the loop index of \<open>batchTexts\<close> are JavaScript numbers; the model is
    for integral values and uses \<open>int\<close>.
  \<^item> A call that never returns has the result \<open>None\<close>.
\<close>

subsection \<open>JavaScript values and errors\<close>

datatype 'n js_value =
    JUndefined
  | JNull
  | JBool bool
  | JNum 'n
  | JStr string
  | JArr "'n js_value list"
  | JObj "(string \<times> 'n js_value) list"

text \<open>
  \<open>TypeError\<close> is what the language raises by itself (a property read on \<open>null\<close>, the
  operator \<open>in\<close> applied to a non-object, spreading a value that is not iterable).
  \<open>UnexpectedCohereResponseFormat r\<close> is the \<open>Error\<close> thrown by \<open>extractEmbeddings\<close>, whose
  message is \<open>Unexpected Cohere response format: \<close> followed by \<open>JSON.stringify r\<close>.
  \<open>Rejected msg\<close> is any failure of the client or of the caller.
\<close>

datatype 'n error =
    TypeError
  | UnexpectedCohereResponseFormat "'n js_value"
  | Rejected string

fun typeof :: "'n js_value \<Rightarrow> string" where
  "typeof JUndefined = ''undefined''"
| "typeof JNull = ''object''"
| "typeof (JBool b) = ''boolean''"
| "typeof (JNum n) = ''number''"
| "typeof (JStr s) = ''string''"
| "typeof (JArr xs) = ''object''"
| "typeof (JObj kvs) = ''object''"

fun isArray :: "'n js_value \<Rightarrow> bool" where
  "isArray (JArr xs) = True"
| "isArray v = False"

text \<open>
  \<open>v.k\<close> for a key \<open>k\<close> that no built-in prototype defines (the adapter reads
  \<open>embeddings\<close> and \<open>float\<close>): a \<open>TypeError\<close> on \<open>null\<close> and \<open>undefined\<close>, the own property
  of an object, and \<open>undefined\<close> everywhere else.
\<close>

fun getProp :: "'n js_value \<Rightarrow> string \<Rightarrow> 'n error + 'n js_value" where
  "getProp JUndefined k = Inl TypeError"
| "getProp JNull k = Inl TypeError"
| "getProp (JObj kvs) k = Inr (case map_of kvs k of None \<Rightarrow> JUndefined | Some v \<Rightarrow> v)"
| "getProp v k = Inr JUndefined"

text \<open>\<open>k in v\<close>, for the same keys: a \<open>TypeError\<close> unless \<open>v\<close> is an object or an array.\<close>

fun hasProp :: "string \<Rightarrow> 'n js_value \<Rightarrow> 'n error + bool" where
  "hasProp k (JObj kvs) = Inr (k \<in> set (map fst kvs))"
| "hasProp k (JArr xs) = Inr False"
| "hasProp k v = Inl TypeError"

text \<open>
  \<open>v[0]\<close>: the first element of an array or the first character of a string,
  \<open>undefined\<close> when there is none; the property \<open>0\<close> of an object.
\<close>

fun index0 :: "'n js_value \<Rightarrow> 'n error + 'n js_value" where
  "index0 (JArr []) = Inr JUndefined"
| "index0 (JArr (x # xs)) = Inr x"
| "index0 (JStr []) = Inr JUndefined"
| "index0 (JStr (c # cs)) = Inr (JStr [c])"
| "index0 v = getProp v ''0''"

text \<open>
  \<open>...v\<close> in an argument list: the elements of an array, the characters of a string, and a
  \<open>TypeError\<close> for every value that is not iterable.
\<close>

fun spread :: "'n js_value \<Rightarrow> 'n error + 'n js_value list" where
  "spread (JArr xs) = Inr xs"
| "spread (JStr s) = Inr (map (\<lambda>c. JStr [c]) s)"
| "spread v = Inl TypeError"

subsection \<open>Configuration and construction\<close>

datatype CohereInputType = search_document | search_query | classification | clustering

datatype CohereTruncate = NONE | START | END

record requestBody =
  texts :: "string list"
  input_type :: CohereInputType
  truncate' :: CohereTruncate

record InvokeModelCommand =
  modelId :: string
  body :: requestBody
  contentType :: string
  accept :: string

type_synonym ('w, 'a, 'n) async = "'w \<Rightarrow> ('n error + 'a) \<times> 'w"

type_synonym ('w, 'n) BedrockRuntimeClient =
  "InvokeModelCommand \<Rightarrow> ('w, 'n js_value, 'n) async"

type_synonym ('w, 'n) AsyncCaller =
  "('w, 'n js_value, 'n) async \<Rightarrow> ('w, 'n js_value, 'n) async"

record ('w, 'n) CohereBedrockEmbeddingsParams =
  p_model :: string
  p_client :: "('w, 'n) BedrockRuntimeClient option"
  p_inputTypeDocument :: "CohereInputType option"
  p_inputTypeQuery :: "CohereInputType option"
  p_truncate :: "CohereTruncate option"
  p_batchSize :: "int option"
  p_maxRetries :: "int option"

record ('w, 'n) CohereBedrockEmbeddings =
  model :: string
  client :: "('w, 'n) BedrockRuntimeClient"
  inputTypeDocument :: CohereInputType
  inputTypeQuery :: CohereInputType
  a_truncate :: CohereTruncate
  batchSize :: int
  maxRetries :: int
  caller :: "('w, 'n) AsyncCaller"

text \<open>\<open>x ?? d\<close>\<close>

fun nullish :: "'a option \<Rightarrow> 'a \<Rightarrow> 'a" where
  "nullish None d = d"
| "nullish (Some x) d = x"

text \<open>
  The constructor. \<open>superCaller\<close> is the caller that the base class builds from the
  parameters, \<open>newClient\<close> the client that \<open>new BedrockRuntimeClient\<close> builds from the client
  options and the region when no client is supplied.
\<close>

definition constructor ::
  "('w, 'n) AsyncCaller \<Rightarrow> ('w, 'n) BedrockRuntimeClient \<Rightarrow>
   ('w, 'n) CohereBedrockEmbeddingsParams \<Rightarrow> ('w, 'n) CohereBedrockEmbeddings" where
  "constructor superCaller newClient params =
     \<lparr> model = p_model params,
       client = nullish (p_client params) newClient,
       inputTypeDocument = nullish (p_inputTypeDocument params) search_document,
       inputTypeQuery = nullish (p_inputTypeQuery params) search_query,
       a_truncate = nullish (p_truncate params) END,
       batchSize = min (nullish (p_batchSize params) 96) 96,
       maxRetries = nullish (p_maxRetries params) 3,
       caller = superCaller \<rparr>"

subsection \<open>The remote call\<close>

text \<open>\<open>text.replace(/\n/g, ' ')\<close>\<close>

fun replaceNewlines :: "string \<Rightarrow> string" where
  "replaceNewlines [] = []"
| "replaceNewlines (c # cs) = (if c = CHR 0x0A then CHR '' '' else c) # replaceNewlines cs"

definition buildCommand ::
  "('w, 'n) CohereBedrockEmbeddings \<Rightarrow> string list \<Rightarrow> CohereInputType \<Rightarrow> InvokeModelCommand" where
  "buildCommand a ts inputType =
     (let cleanedTexts = map replaceNewlines ts;
          requestBody = \<lparr> texts = cleanedTexts, input_type = inputType, truncate' = a_truncate a \<rparr>
      in \<lparr> modelId = model a, body = requestBody,
           contentType = ''application/json'', accept = ''application/json'' \<rparr>)"

definition extractEmbeddings :: "'n js_value \<Rightarrow> 'n error + 'n js_value" where
  "extractEmbeddings response =
     (case getProp response ''embeddings'' of
        Inl e \<Rightarrow> Inl e
      | Inr embeddings \<Rightarrow>
          (case (if typeof embeddings = ''object'' \<and> \<not> isArray embeddings
                 then hasProp ''float'' embeddings else Inr False) of
             Inl e \<Rightarrow> Inl e
           | Inr True \<Rightarrow> getProp embeddings ''float''
           | Inr False \<Rightarrow>
               (if isArray embeddings then Inr embeddings
                else Inl (UnexpectedCohereResponseFormat response))))"

definition invokeCohere ::
  "('w, 'n) CohereBedrockEmbeddings \<Rightarrow> string list \<Rightarrow> CohereInputType \<Rightarrow>
   ('w, 'n js_value, 'n) async" where
  "invokeCohere a ts inputType w =
     (case client a (buildCommand a ts inputType) w of
        (Inl e, w') \<Rightarrow> (Inl e, w')
      | (Inr parsed, w') \<Rightarrow> (extractEmbeddings parsed, w'))"

subsection \<open>Batching\<close>

text \<open>
  \<open>xs.slice(s, e)\<close>: a negative bound counts from the end, and both bounds are clamped to
  the array.
\<close>

definition slice :: "'a list \<Rightarrow> int \<Rightarrow> int \<Rightarrow> 'a list" where
  "slice xs s e =
     (let len = int (length xs);
          k = (if s < 0 then max (len + s) 0 else min s len);
          final = (if e < 0 then max (len + e) 0 else min e len)
      in take (nat (max (final - k) 0)) (drop (nat k) xs))"

text \<open>
  The loop \<open>for (let i = 0; i < texts.length; i += this.batchSize)\<close> of \<open>batchTexts\<close>, from
  the index \<open>i\<close> and the batches pushed so far. Nothing bounds the number of its iterations.
\<close>

partial_function (option) batchLoop ::
  "int \<Rightarrow> 'a list \<Rightarrow> int \<Rightarrow> 'a list list \<Rightarrow> 'a list list option" where
  "batchLoop sz ts i batches =
     (if i < int (length ts)
      then batchLoop sz ts (i + sz) (batches @ [slice ts i (i + sz)])
      else Some batches)"

definition batchTexts :: "('w, 'n) CohereBedrockEmbeddings \<Rightarrow> 'a list \<Rightarrow> 'a list list option" where
  "batchTexts a ts = batchLoop (batchSize a) ts 0 []"

subsection \<open>The public operations\<close>

text \<open>
  Both operations return, with their result and the final state, the remote calls they
  issued: one entry, the texts and the input type, for each \<open>this.caller.call\<close> around
  \<open>invokeCohere\<close>, in the order of the calls.
\<close>

type_synonym remoteCall = "string list \<times> CohereInputType"

text \<open>The loop \<open>for (const batch of batches)\<close> of \<open>embedDocuments\<close>.\<close>

fun embedBatches ::
  "('w, 'n) CohereBedrockEmbeddings \<Rightarrow> string list list \<Rightarrow> 'n js_value list \<Rightarrow>
   remoteCall list \<Rightarrow> 'w \<Rightarrow> ('n error + 'n js_value list) \<times> remoteCall list \<times> 'w" where
  "embedBatches a [] allEmbeddings calls w = (Inr allEmbeddings, calls, w)"
| "embedBatches a (batch # rest) allEmbeddings calls w =
     (case caller a (invokeCohere a batch (inputTypeDocument a)) w of
        (Inl e, w') \<Rightarrow> (Inl e, calls @ [(batch, inputTypeDocument a)], w')
      | (Inr embeddings, w') \<Rightarrow>
          (case spread embeddings of
             Inl e \<Rightarrow> (Inl e, calls @ [(batch, inputTypeDocument a)], w')
           | Inr vs \<Rightarrow>
               embedBatches a rest (allEmbeddings @ vs)
                 (calls @ [(batch, inputTypeDocument a)]) w'))"

definition embedDocuments ::
  "('w, 'n) CohereBedrockEmbeddings \<Rightarrow> string list \<Rightarrow> 'w \<Rightarrow>
   (('n error + 'n js_value list) \<times> remoteCall list \<times> 'w) option" where
  "embedDocuments a documents w =
     (if length documents = 0 then Some (Inr [], [], w)
      else (case batchTexts a documents of
              None \<Rightarrow> None
            | Some batches \<Rightarrow> Some (embedBatches a batches [] [] w)))"

definition embedQuery ::
  "('w, 'n) CohereBedrockEmbeddings \<Rightarrow> string \<Rightarrow> 'w \<Rightarrow>
   ('n error + 'n js_value) \<times> remoteCall list \<times> 'w" where
  "embedQuery a query w =
     (case caller a (invokeCohere a [query] (inputTypeQuery a)) w of
        (Inl e, w') \<Rightarrow> (Inl e, [([query], inputTypeQuery a)], w')
      | (Inr embeddings, w') \<Rightarrow> (index0 embeddings, [([query], inputTypeQuery a)], w'))"

subsection \<open>The batching of section 4.2 of the specification\<close>

text \<open>
  The batching helper as the specification words it: contiguous sub-sequences of at most
  \<open>n\<close> elements that cover the input once and in order. It is compared with the loop of
  \<open>batchTexts\<close> below.
\<close>

function chunksOf :: "nat \<Rightarrow> 'a list \<Rightarrow> 'a list list" where
  "chunksOf n xs = (if n = 0 \<or> xs = [] then [] else take n xs # chunksOf n (drop n xs))"
  by pat_completeness auto
termination
  by (relation "measure (\<lambda>(n, xs). length xs)") auto

declare chunksOf.simps [simp del]

subsection \<open>Runs of the remote calls\<close>

text \<open>
  Two descriptions of the remote calls made for a list of batches, one after the other
  and each in the state that the call before it left. They are stated from the
  specification (one call per batch, in order, with the document input type), apart from
  the loop of \<open>embedDocuments\<close>, and are compared with it below.

  \<open>firstFailingCall\<close> is the position of the first batch whose call fails: the wrapped
  call is rejected, or its answer cannot be spread into the result. It is \<open>None\<close> when
  every call succeeds.
\<close>

fun firstFailingCall ::
  "('w, 'n) CohereBedrockEmbeddings \<Rightarrow> string list list \<Rightarrow> 'w \<Rightarrow> nat option" where
  "firstFailingCall a [] w = None"
| "firstFailingCall a (batch # rest) w =
     (case caller a (invokeCohere a batch (inputTypeDocument a)) w of
        (Inl e, w') \<Rightarrow> Some 0
      | (Inr answer, w') \<Rightarrow>
          (case spread answer of
             Inl e \<Rightarrow> Some 0
           | Inr vs \<Rightarrow> map_option Suc (firstFailingCall a rest w')))"

text \<open>
  \<open>wellServed a R batches w\<close>: every one of these calls answers with an array that holds,
  for each text of its batch and in the order of the batch, a vector related to the text
  by \<open>R\<close>.
\<close>

fun wellServed ::
  "('w, 'n) CohereBedrockEmbeddings \<Rightarrow> (string \<Rightarrow> 'n js_value \<Rightarrow> bool) \<Rightarrow>
   string list list \<Rightarrow> 'w \<Rightarrow> bool" where
  "wellServed a R [] w = True"
| "wellServed a R (batch # rest) w =
     (case caller a (invokeCohere a batch (inputTypeDocument a)) w of
        (Inl e, w') \<Rightarrow> False
      | (Inr answer, w') \<Rightarrow>
          (case answer of
             JArr vs \<Rightarrow> list_all2 R batch vs \<and> wellServed a R rest w'
           | _ \<Rightarrow> False))"

subsection \<open>Stubs for the client and the caller\<close>

text \<open>
  A service that answers every request in the v3 shape, with one vector per text: the
  one-element vector holding the length of the text.
\<close>

definition echoResponse :: "InvokeModelCommand \<Rightarrow> int js_value" where
  "echoResponse command =
     JObj [(''embeddings'', JArr (map (\<lambda>t. JArr [JNum (int (length t))]) (texts (body command))))]"

definition echoClient :: "('w, int) BedrockRuntimeClient" where
  "echoClient command w = (Inr (echoResponse command), w)"

text \<open>A service that answers with an empty \<open>embeddings\<close> array.\<close>

definition emptyClient :: "('w, int) BedrockRuntimeClient" where
  "emptyClient command w = (Inr (JObj [(''embeddings'', JArr [])]), w)"


text \<open>
  A service that counts the requests it has received and is out of order from request
  number \<open>k\<close> on.
\<close>

definition outageClient :: "nat \<Rightarrow> (nat, int) BedrockRuntimeClient" where
  "outageClient k command n =
     (if k \<le> n then Inl (Rejected ''ServiceUnavailable'') else Inr (echoResponse command), Suc n)"

text \<open>A caller that runs the operation once and never retries.\<close>

definition directCaller :: "('w, 'n) AsyncCaller" where
  "directCaller operation = operation"

definition exampleParams :: "('w, int) CohereBedrockEmbeddingsParams" where
  "exampleParams =
     \<lparr> p_model = ''cohere.embed-english-v3'', p_client = None, p_inputTypeDocument = None,
       p_inputTypeQuery = None, p_truncate = None, p_batchSize = None, p_maxRetries = None \<rparr>"

definition exampleAdapter ::
  "int option \<Rightarrow> ('w, int) BedrockRuntimeClient \<Rightarrow> ('w, int) CohereBedrockEmbeddings" where
  "exampleAdapter requested service =
     constructor directCaller service (exampleParams\<lparr>p_batchSize := requested\<rparr>)"

section \<open>Auxiliary facts\<close>

subsection \<open>Chunks\<close>

lemma chunksOf_Nil: "chunksOf n [] = []"
  by (simp add: chunksOf.simps)

lemma chunksOf_step:
  "0 < n \<Longrightarrow> xs \<noteq> [] \<Longrightarrow> chunksOf n xs = take n xs # chunksOf n (drop n xs)"
  by (subst chunksOf.simps) simp

lemma chunksOf_eq_Nil: "0 < n \<Longrightarrow> chunksOf n xs = [] \<longleftrightarrow> xs = []"
  by (cases "xs = []") (simp_all add: chunksOf_Nil chunksOf_step)

lemma concat_chunksOf: "0 < n \<Longrightarrow> concat (chunksOf n xs) = xs"
proof (induction n xs rule: chunksOf.induct)
  case (1 n xs)
  show ?case
  proof (cases "xs = []")
    case True
    then show ?thesis by (simp add: chunksOf_Nil)
  next
    case False
    with 1 show ?thesis by (simp add: chunksOf_step)
  qed
qed

lemma ceil_div_step:
  fixes n L :: nat
  assumes "0 < n" "0 < L"
  shows "(L + n - 1) div n = Suc ((L - n + n - 1) div n)"
proof -
  have lhs: "(L + n - 1) div n = Suc ((L - 1) div n)"
  proof -
    from assms obtain m where m: "L = Suc m" by (cases L) auto
    from assms have "(m + n) div n = Suc (m div n)" by simp
    with m show ?thesis by simp
  qed
  show ?thesis
  proof (cases "L \<le> n")
    case True
    with assms have "(L - 1) div n = 0" "(L - n + n - 1) div n = 0" by simp_all
    with lhs show ?thesis by simp
  next
    case False
    then have "L - n + n - 1 = L - 1" by simp
    with lhs show ?thesis by simp
  qed
qed

lemma length_chunksOf: "0 < n \<Longrightarrow> length (chunksOf n xs) = (length xs + n - 1) div n"
proof (induction n xs rule: chunksOf.induct)
  case (1 n xs)
  show ?case
  proof (cases "xs = []")
    case True
    with 1(2) show ?thesis by (simp add: chunksOf_Nil)
  next
    case False
    with 1 have ih: "length (chunksOf n (drop n xs)) = (length xs - n + n - 1) div n"
      by simp
    from False have "0 < length xs" by simp
    from ceil_div_step[OF 1(2) this] ih show ?thesis
      using False 1(2) by (simp add: chunksOf_step)
  qed
qed

lemma ceiling_div_nat:
  fixes N n :: nat
  assumes n: "0 < n"
  shows "int ((N + n - 1) div n) = \<lceil>real N / real n\<rceil>"
proof -
  define k where "k = (N + n - 1) div n"
  have up: "N \<le> k * n"
  proof -
    from n have "N + n - 1 < n + k * n"
      unfolding k_def by (rule dividend_less_div_times)
    then show ?thesis by simp
  qed
  have lo: "k * n < N + n"
  proof -
    have "k * n \<le> N + n - 1" unfolding k_def by simp
    with n show ?thesis by simp
  qed
  have "real N / real n \<le> real k"
  proof -
    from up have "real N \<le> real k * real n" by (metis of_nat_le_iff of_nat_mult)
    with n show ?thesis by (simp add: pos_divide_le_eq)
  qed
  moreover have "real k - 1 < real N / real n"
  proof -
    from lo have "real (k * n) < real (N + n)" by (simp only: of_nat_less_iff)
    then have "real k * real n < real N + real n" by simp
    then have "(real k - 1) * real n < real N" by (simp add: algebra_simps)
    with n show ?thesis by (simp add: pos_less_divide_eq)
  qed
  ultimately have "\<lceil>real N / real n\<rceil> = int k"
    by (intro ceiling_unique) simp_all
  then show ?thesis by (simp add: k_def)
qed

lemma chunksOf_bounded: "0 < n \<Longrightarrow> list_all (\<lambda>c. c \<noteq> [] \<and> length c \<le> n) (chunksOf n xs)"
proof (induction n xs rule: chunksOf.induct)
  case (1 n xs)
  show ?case
  proof (cases "xs = []")
    case True
    then show ?thesis by (simp add: chunksOf_Nil)
  next
    case False
    with 1 show ?thesis by (simp add: chunksOf_step)
  qed
qed

lemma chunksOf_full: "0 < n \<Longrightarrow> list_all (\<lambda>c. length c = n) (butlast (chunksOf n xs))"
proof (induction n xs rule: chunksOf.induct)
  case (1 n xs)
  show ?case
  proof (cases "xs = []")
    case True
    then show ?thesis by (simp add: chunksOf_Nil)
  next
    case False
    with 1 have ih: "list_all (\<lambda>c. length c = n) (butlast (chunksOf n (drop n xs)))" by simp
    show ?thesis
    proof (cases "drop n xs = []")
      case True
      with False 1(2) show ?thesis by (simp add: chunksOf_step chunksOf_Nil)
    next
      case rest: False
      then have "n < length xs" by simp
      with rest False 1(2) ih show ?thesis
        by (simp add: chunksOf_step[of n xs] chunksOf_eq_Nil)
    qed
  qed
qed

lemma nth_chunksOf:
  "0 < n \<Longrightarrow> j < length (chunksOf n xs) \<Longrightarrow> chunksOf n xs ! j = take n (drop (j * n) xs)"
proof (induction n xs arbitrary: j rule: chunksOf.induct)
  case (1 n xs)
  from 1(3) have ne: "xs \<noteq> []" by (auto simp: chunksOf_Nil)
  show ?case
  proof (cases j)
    case 0
    with ne 1(2) show ?thesis by (simp add: chunksOf_step)
  next
    case (Suc k)
    with 1(3) ne 1(2) have "k < length (chunksOf n (drop n xs))" by (simp add: chunksOf_step)
    with 1(1)[of k] ne 1(2) have "chunksOf n (drop n xs) ! k = take n (drop (k * n) (drop n xs))"
      by simp
    with Suc ne 1(2) show ?thesis by (simp add: chunksOf_step add.commute)
  qed
qed

subsection \<open>The loop of \<open>batchTexts\<close>\<close>

lemma slice_chunk:
  assumes "1 \<le> sz" "0 \<le> i" "i < int (length ts)"
  shows "slice ts i (i + sz) = take (nat sz) (drop (nat i) ts)"
proof -
  have "nat (max (min (i + sz) (int (length ts)) - i) 0) = min (nat sz) (length ts - nat i)"
    using assms by (auto simp: min_def max_def)
  then show ?thesis using assms by (simp add: slice_def Let_def min_def)
qed

text \<open>With a positive step the loop ends, and its batches are the chunks of the input.\<close>

lemma batchLoop_chunksOf:
  "1 \<le> sz \<Longrightarrow> 0 \<le> i \<Longrightarrow>
   batchLoop sz ts i bs = Some (bs @ chunksOf (nat sz) (drop (nat i) ts))"
proof (induction "length ts - nat i" arbitrary: i bs rule: less_induct)
  case less
  show ?case
  proof (cases "i < int (length ts)")
    case False
    with less.prems have "drop (nat i) ts = []" by simp
    with False show ?thesis by (subst batchLoop.simps) (simp add: chunksOf_Nil)
  next
    case True
    with less.prems have m: "length ts - nat (i + sz) < length ts - nat i" by linarith
    from less.prems have p: "0 \<le> i + sz" by simp
    from True less.prems have ne: "drop (nat i) ts \<noteq> []" by simp
    have d: "drop (nat (i + sz)) ts = drop (nat sz) (drop (nat i) ts)"
      using less.prems by (simp add: nat_add_distrib add.commute)
    have "batchLoop sz ts i bs = batchLoop sz ts (i + sz) (bs @ [slice ts i (i + sz)])"
      using True by (subst batchLoop.simps) simp
    also have "\<dots> = Some ((bs @ [slice ts i (i + sz)]) @ chunksOf (nat sz) (drop (nat (i + sz)) ts))"
      by (rule less.hyps[OF m less.prems(1) p])
    also have "\<dots> = Some (bs @ chunksOf (nat sz) (drop (nat i) ts))"
      using less.prems ne
      by (simp add: slice_chunk[OF less.prems True] d chunksOf_step[of "nat sz" "drop (nat i) ts"])
    finally show ?thesis .
  qed
qed

text \<open>
  With a step that is zero or negative the index stays at or below zero, so on a non-empty
  input the loop condition holds for ever: no result is ever returned.
\<close>

lemma batchLoop_no_result:
  assumes "batchLoop sz ts i bs = Some r"
  shows "\<not> (sz \<le> 0 \<and> i \<le> 0 \<and> ts \<noteq> [])"
  using assms
proof (induction rule: batchLoop.raw_induct[rotated 1, consumes 1])
  case (1 f sz ts i bs r)
  show ?case
  proof
    assume h: "sz \<le> 0 \<and> i \<le> 0 \<and> ts \<noteq> []"
    then have "i < int (length ts)" by (cases ts) auto
    with 1(2) have "f sz ts (i + sz) (bs @ [slice ts i (i + sz)]) = Some r" by simp
    from 1(1)[OF this] h show False by auto
  qed
qed

lemma batchTexts_positive:
  "1 \<le> batchSize a \<Longrightarrow> batchTexts a ts = Some (chunksOf (nat (batchSize a)) ts)"
  using batchLoop_chunksOf[of "batchSize a" 0 ts "[]"] by (simp add: batchTexts_def)

lemma batchTexts_diverges:
  "batchSize a \<le> 0 \<Longrightarrow> ts \<noteq> [] \<Longrightarrow> batchTexts a ts = None"
proof (cases "batchTexts a ts")
  case None
  then show ?thesis .
next
  case (Some r)
  assume "batchSize a \<le> 0" "ts \<noteq> []"
  with batchLoop_no_result[of "batchSize a" ts 0 "[]" r] Some show ?thesis
    by (simp add: batchTexts_def)
qed

subsection \<open>The loop of \<open>embedDocuments\<close>\<close>



lemma embedBatches_firstFailingCall:
  "embedBatches a bs acc calls w = (r, cs, w') \<Longrightarrow>
   cs = calls @ map (\<lambda>b. (b, inputTypeDocument a))
                  (case firstFailingCall a bs w of None \<Rightarrow> bs | Some k \<Rightarrow> take (Suc k) bs)
   \<and> isl r = (firstFailingCall a bs w \<noteq> None)"
proof (induction bs arbitrary: acc calls w)
  case Nil
  then show ?case by auto
next
  case (Cons b bs)
  obtain r1 w1 where c: "caller a (invokeCohere a b (inputTypeDocument a)) w = (r1, w1)"
    by (cases "caller a (invokeCohere a b (inputTypeDocument a)) w")
  show ?case
  proof (cases r1)
    case (Inl e)
    with Cons.prems c show ?thesis by auto
  next
    case (Inr answer)
    show ?thesis
    proof (cases "spread answer")
      case (Inl e)
      with c Inr have f: "firstFailingCall a (b # bs) w = Some 0" by simp
      from c Inr Inl
      have "embedBatches a (b # bs) acc calls w = (Inl e, calls @ [(b, inputTypeDocument a)], w1)"
        by simp
      with Cons.prems have "r = Inl e" "cs = calls @ [(b, inputTypeDocument a)]" by simp_all
      with f show ?thesis by simp
    next
      case sp: (Inr us)
      with Cons.prems c Inr
      have "embedBatches a bs (acc @ us) (calls @ [(b, inputTypeDocument a)]) w1 = (r, cs, w')"
        by simp
      from Cons.IH[OF this] c Inr sp show ?thesis
        by (cases "firstFailingCall a bs w1") simp_all
    qed
  qed
qed

lemma embedBatches_wellServed:
  "wellServed a R bs w \<Longrightarrow>
   \<exists>vs cs w'. embedBatches a bs acc calls w = (Inr (acc @ vs), cs, w')
     \<and> list_all2 R (concat bs) vs"
proof (induction bs arbitrary: acc calls w)
  case Nil
  then show ?case by simp
next
  case (Cons b bs)
  obtain r1 w1 where c: "caller a (invokeCohere a b (inputTypeDocument a)) w = (r1, w1)"
    by (cases "caller a (invokeCohere a b (inputTypeDocument a)) w")
  from Cons.prems c obtain us where
    r1: "r1 = Inr (JArr us)" and r: "list_all2 R b us" and rest: "wellServed a R bs w1"
    by (cases r1; auto split: js_value.splits)
  from Cons.IH[OF rest, of "acc @ us" "calls @ [(b, inputTypeDocument a)]"] obtain vs cs w' where
    ih: "embedBatches a bs (acc @ us) (calls @ [(b, inputTypeDocument a)]) w1
           = (Inr ((acc @ us) @ vs), cs, w')"
    and rs: "list_all2 R (concat bs) vs" by blast
  from c r1 ih have "embedBatches a (b # bs) acc calls w = (Inr (acc @ (us @ vs)), cs, w')" by simp
  moreover from r rs have "list_all2 R (concat (b # bs)) (us @ vs)"
    by (simp add: list_all2_appendI)
  ultimately show ?case by blast
qed

text \<open>
  A run is well served when the service keeps an invariant \<open>I\<close> under which it answers
  every non-empty batch of at most \<open>batchSize\<close> texts with one related vector per text.
\<close>

lemma wellServed_invariant:
  assumes step: "\<forall>batch w. I w \<and> batch \<noteq> [] \<and> int (length batch) \<le> batchSize a \<longrightarrow>
           (\<exists>vs w'. caller a (invokeCohere a batch (inputTypeDocument a)) w = (Inr (JArr vs), w')
              \<and> list_all2 R batch vs \<and> I w')"
  shows "I w \<Longrightarrow> list_all (\<lambda>b. b \<noteq> [] \<and> int (length b) \<le> batchSize a) bs \<Longrightarrow>
         wellServed a R bs w"
proof (induction bs arbitrary: w)
  case Nil
  then show ?case by simp
next
  case (Cons b bs)
  from Cons.prems have "I w \<and> b \<noteq> [] \<and> int (length b) \<le> batchSize a" by simp
  with step obtain vs w1 where
    c: "caller a (invokeCohere a b (inputTypeDocument a)) w = (Inr (JArr vs), w1)"
    and r: "list_all2 R b vs" and i: "I w1" by blast
  from Cons.prems have "list_all (\<lambda>b. b \<noteq> [] \<and> int (length b) \<le> batchSize a) bs" by simp
  from Cons.IH[OF i this] c r show ?case by simp
qed

subsection \<open>The stubs\<close>

lemma length_replaceNewlines: "length (replaceNewlines s) = length s"
  by (induction s) simp_all

lemma replaceNewlines_map:
  "replaceNewlines s = map (\<lambda>c. if c = CHR 0x0A then CHR '' '' else c) s"
  by (induction s) simp_all

lemma exampleAdapter_simps:
  "batchSize (exampleAdapter requested service) = min (nullish requested 96) 96"
  "caller (exampleAdapter requested service) = directCaller"
  "client (exampleAdapter requested service) = service"
  "inputTypeDocument (exampleAdapter requested service) = search_document"
  "inputTypeQuery (exampleAdapter requested service) = search_query"
  by (simp_all add: exampleAdapter_def constructor_def exampleParams_def)

lemma extractEmbeddings_v3: "extractEmbeddings (JObj [(''embeddings'', JArr xs)]) = Inr (JArr xs)"
  by (simp add: extractEmbeddings_def)

lemma echo_call:
  "directCaller (invokeCohere (exampleAdapter requested echoClient) batch inputType) w
     = (Inr (JArr (map (\<lambda>t. JArr [JNum (int (length t))]) batch)), w)"
  by (simp add: directCaller_def invokeCohere_def exampleAdapter_simps echoClient_def
      echoResponse_def buildCommand_def extractEmbeddings_v3 length_replaceNewlines o_def)

lemma outage_call:
  "directCaller (invokeCohere (exampleAdapter requested (outageClient k)) batch inputType) n
     = (if k \<le> n then Inl (Rejected ''ServiceUnavailable'')
        else Inr (JArr (map (\<lambda>t. JArr [JNum (int (length t))]) batch)), Suc n)"
  by (simp add: directCaller_def invokeCohere_def exampleAdapter_simps outageClient_def
      echoResponse_def buildCommand_def extractEmbeddings_v3 length_replaceNewlines o_def)


lemma empty_call:
  "directCaller (invokeCohere (exampleAdapter requested emptyClient) batch inputType) w
     = (Inr (JArr []), w)"
  by (simp add: directCaller_def invokeCohere_def exampleAdapter_simps emptyClient_def
      extractEmbeddings_v3)

section \<open>The claims\<close>

subsection \<open>Response normalisation\<close>

text \<open>
  The three outcomes of \<open>extractEmbeddings\<close> on a response whose \<open>embeddings\<close> field is not
  \<open>null\<close>: the \<open>float\<close> property of a non-array object that has one, the field itself when
  it is an array, and otherwise the error that carries the response.
\<close>

lemma extractEmbeddings_cases:
  "extractEmbeddings response =
     (case getProp response ''embeddings'' of
        Inl e \<Rightarrow> Inl TypeError
      | Inr embeddings \<Rightarrow>
          (case embeddings of
             JNull \<Rightarrow> Inl TypeError
           | JArr xs \<Rightarrow> Inr (JArr xs)
           | JObj kvs \<Rightarrow>
               (case map_of kvs ''float'' of
                  Some v \<Rightarrow> Inr v
                | None \<Rightarrow> Inl (UnexpectedCohereResponseFormat response))
           | _ \<Rightarrow> Inl (UnexpectedCohereResponseFormat response)))"
proof (cases "getProp response ''embeddings''")
  case (Inl e)
  then have "e = TypeError" by (cases response) auto
  with Inl show ?thesis by (simp add: extractEmbeddings_def)
next
  case (Inr embeddings)
  have key: "(''float'' \<in> set (map fst kvs)) = (map_of kvs ''float'' \<noteq> None)"
    for kvs :: "(string \<times> 'a js_value) list"
    by (simp add: map_of_eq_None_iff)
  from Inr show ?thesis
    by (cases embeddings)
      (auto simp: extractEmbeddings_def key simp del: set_map split: option.splits)
qed

lemma extractEmbeddings_shapes:
  "extractEmbeddings (JObj [(''embeddings'', JObj [(''float'', v)])]) = Inr v"
  "extractEmbeddings (JObj [(''embeddings'', JArr xs)]) = Inr (JArr xs)"
  "extractEmbeddings (JObj [(''embeddings'', JStr s)])
     = Inl (UnexpectedCohereResponseFormat (JObj [(''embeddings'', JStr s)]))"
  "extractEmbeddings (JObj []) = Inl (UnexpectedCohereResponseFormat (JObj []))"
  by (simp_all add: extractEmbeddings_def)

text \<open>
  Claim C1. For every shape of \<open>embeddings\<close> other than the two known ones, the error
  raised by \<open>extractEmbeddings\<close> should carry the response. On the parsed response
  \<open>{"embeddings": null}\<close> it does not: \<open>typeof null\<close> is \<open>object\<close> and \<open>null\<close> is not an array,
  so \<open>'float' in null\<close> is evaluated and raises a \<open>TypeError\<close> before the final \<open>throw\<close> is
  reached.
\<close>

theorem extractEmbeddings_null_embeddings:
  "extractEmbeddings (JObj [(''embeddings'', JNull)]) = Inl TypeError"
  by (simp add: extractEmbeddings_def)

subsection \<open>Failure of a batch\<close>



subsection \<open>Batching\<close>

text \<open>
  Claim C3. For an effective batch size \<open>B\<close> of at least 1 and an input of length \<open>N\<close>,
  \<open>batchTexts\<close> returns \<open>\<lceil>N / B\<rceil>\<close> chunks; each is non-empty and has at most \<open>B\<close>
  elements, all but the last have exactly \<open>B\<close>, the chunk number \<open>j\<close> is the slice of the
  input that starts at \<open>j * B\<close>, and their concatenation is the input. \<open>embedDocuments\<close>
  returns, and the calls it issued are, in order, one call per chunk with the document
  input type: for every chunk when every call succeeds, and then it succeeds; for the
  chunks up to and including the first one whose call fails otherwise, and then it fails.
\<close>

theorem batchTexts_embedDocuments_chunks:
  assumes "1 \<le> batchSize a"
  shows "(\<exists>chunks. batchTexts a ts = Some chunks
           \<and> int (length chunks) = \<lceil>real (length ts) / real_of_int (batchSize a)\<rceil>
           \<and> list_all (\<lambda>c. c \<noteq> [] \<and> int (length c) \<le> batchSize a) chunks
           \<and> list_all (\<lambda>c. int (length c) = batchSize a) (butlast chunks)
           \<and> chunks = map (\<lambda>j. take (nat (batchSize a)) (drop (j * nat (batchSize a)) ts))
                         [0..<length chunks]
           \<and> concat chunks = ts)
       \<and> (\<exists>batches r calls w'. batchTexts a documents = Some batches
           \<and> embedDocuments a documents w = Some (r, calls, w')
           \<and> calls = map (\<lambda>b. (b, inputTypeDocument a))
                        (case firstFailingCall a batches w of
                           None \<Rightarrow> batches
                         | Some k \<Rightarrow> take (Suc k) batches)
           \<and> isl r = (firstFailingCall a batches w \<noteq> None))"
proof (rule conjI)
  let ?n = "nat (batchSize a)"
  let ?cs = "chunksOf ?n ts"
  from assms have n: "0 < ?n" by simp
  have "batchTexts a ts = Some ?cs"
    by (rule batchTexts_positive[OF assms])
  moreover have "int (length ?cs) = \<lceil>real (length ts) / real_of_int (batchSize a)\<rceil>"
  proof -
    have "int (length ?cs) = \<lceil>real (length ts) / real ?n\<rceil>"
      by (simp only: length_chunksOf[OF n] ceiling_div_nat[OF n])
    moreover from assms have "real ?n = real_of_int (batchSize a)" by simp
    ultimately show ?thesis by simp
  qed
  moreover have "list_all (\<lambda>c. c \<noteq> [] \<and> int (length c) \<le> batchSize a) ?cs"
    using chunksOf_bounded[OF n, of ts] assms by (auto simp: list_all_iff)
  moreover have "list_all (\<lambda>c. int (length c) = batchSize a) (butlast ?cs)"
    using chunksOf_full[OF n, of ts] assms by (auto simp: list_all_iff)
  moreover have "?cs = map (\<lambda>j. take ?n (drop (j * ?n) ts)) [0..<length ?cs]"
    by (rule nth_equalityI) (simp_all add: nth_chunksOf[OF n])
  moreover have "concat ?cs = ts"
    by (rule concat_chunksOf[OF n])
  ultimately show "\<exists>chunks. batchTexts a ts = Some chunks
           \<and> int (length chunks) = \<lceil>real (length ts) / real_of_int (batchSize a)\<rceil>
           \<and> list_all (\<lambda>c. c \<noteq> [] \<and> int (length c) \<le> batchSize a) chunks
           \<and> list_all (\<lambda>c. int (length c) = batchSize a) (butlast chunks)
           \<and> chunks = map (\<lambda>j. take (nat (batchSize a)) (drop (j * nat (batchSize a)) ts))
                         [0..<length chunks]
           \<and> concat chunks = ts"
    by blast
next
  let ?bs = "chunksOf (nat (batchSize a)) documents"
  let ?f = "\<lambda>b. (b, inputTypeDocument a)"
  have b: "batchTexts a documents = Some ?bs"
    by (rule batchTexts_positive[OF assms])
  show "\<exists>batches r calls w'. batchTexts a documents = Some batches
           \<and> embedDocuments a documents w = Some (r, calls, w')
           \<and> calls = map ?f (case firstFailingCall a batches w of
                              None \<Rightarrow> batches
                            | Some k \<Rightarrow> take (Suc k) batches)
           \<and> isl r = (firstFailingCall a batches w \<noteq> None)"
  proof (cases "documents = []")
    case True
    with b show ?thesis by (simp add: embedDocuments_def chunksOf_Nil)
  next
    case False
    obtain r calls w' where e: "embedBatches a ?bs [] [] w = (r, calls, w')"
      by (cases "embedBatches a ?bs [] [] w") auto
    from embedBatches_firstFailingCall[OF e]
    have c: "calls = map ?f (case firstFailingCall a ?bs w of
                               None \<Rightarrow> ?bs
                             | Some k \<Rightarrow> take (Suc k) ?bs)"
      and i: "isl r = (firstFailingCall a ?bs w \<noteq> None)"
      by simp_all
    from False b e have "embedDocuments a documents w = Some (r, calls, w')"
      by (simp add: embedDocuments_def)
    with b c i show ?thesis by blast
  qed
qed

theorem batchTexts_embedDocuments_chunks_witness:
  "1 \<le> batchSize (exampleAdapter (Some 2) echoClient :: (unit, int) CohereBedrockEmbeddings)
   \<and> (\<exists>chunks. batchTexts (exampleAdapter (Some 2) echoClient :: (unit, int) CohereBedrockEmbeddings)
                   [''a'', ''b'', ''c''] = Some chunks
         \<and> int (length chunks) = 2
         \<and> concat chunks = [''a'', ''b'', ''c''])
   \<and> (\<exists>vs w'. embedDocuments (exampleAdapter (Some 2) echoClient) [''a'', ''b'', ''c''] ()
         = Some (Inr vs, [([''a'', ''b''], search_document), ([''c''], search_document)], w'))
   \<and> 1 \<le> batchSize (exampleAdapter (Some 1) (outageClient 1))
   \<and> (\<exists>e w'. embedDocuments (exampleAdapter (Some 1) (outageClient 1)) [''a'', ''b'', ''c''] 0
         = Some (Inl e, [([''a''], search_document), ([''b''], search_document)], w'))"
proof -
  let ?a = "exampleAdapter (Some 2) echoClient :: (unit, int) CohereBedrockEmbeddings"
  let ?o = "exampleAdapter (Some 1) (outageClient 1)"
  let ?d = "[''a'', ''b'', ''c'']"
  have h: "1 \<le> batchSize ?a" by (simp add: exampleAdapter_simps)
  have ho: "1 \<le> batchSize ?o" by (simp add: exampleAdapter_simps)
  have c: "\<lceil>real (length ?d) / real_of_int (batchSize ?a)\<rceil> = 2"
    by (simp add: exampleAdapter_simps)
  have b: "batchTexts ?a ?d = Some [[''a'', ''b''], [''c'']]"
    by (simp add: batchTexts_positive exampleAdapter_simps chunksOf_step chunksOf_Nil)
  have bo: "batchTexts ?o ?d = Some [[''a''], [''b''], [''c'']]"
    by (simp add: batchTexts_positive exampleAdapter_simps chunksOf_step chunksOf_Nil)
  have f: "firstFailingCall ?a [[''a'', ''b''], [''c'']] () = None"
    by (simp add: exampleAdapter_simps echo_call)
  have fo: "firstFailingCall ?o [[''a''], [''b''], [''c'']] 0 = Some 1"
    by (simp add: exampleAdapter_simps outage_call)
  from batchTexts_embedDocuments_chunks[OF h, of ?d ?d "()"] obtain batches r calls w' where
    1: "\<exists>chunks. batchTexts ?a ?d = Some chunks
          \<and> int (length chunks) = \<lceil>real (length ?d) / real_of_int (batchSize ?a)\<rceil>
          \<and> concat chunks = ?d"
    and x: "batchTexts ?a ?d = Some batches" "embedDocuments ?a ?d () = Some (r, calls, w')"
      "calls = map (\<lambda>b. (b, inputTypeDocument ?a))
                 (case firstFailingCall ?a batches () of
                    None \<Rightarrow> batches
                  | Some k \<Rightarrow> take (Suc k) batches)"
      "isl r = (firstFailingCall ?a batches () \<noteq> None)"
    by blast
  from x(1) b have bb: "batches = [[''a'', ''b''], [''c'']]" by simp
  from x(3) have "calls = [([''a'', ''b''], search_document), ([''c''], search_document)]"
    unfolding bb f by (simp add: exampleAdapter_simps)
  moreover from x(4) obtain vs where "r = Inr vs"
    unfolding bb f by (cases r) simp_all
  ultimately have 3: "\<exists>vs w'. embedDocuments ?a ?d ()
        = Some (Inr vs, [([''a'', ''b''], search_document), ([''c''], search_document)], w')"
    using x(2) by blast
  from batchTexts_embedDocuments_chunks[OF ho, of ?d ?d 0] obtain batches' r' calls' w'' where
    y: "batchTexts ?o ?d = Some batches'" "embedDocuments ?o ?d 0 = Some (r', calls', w'')"
      "calls' = map (\<lambda>b. (b, inputTypeDocument ?o))
                 (case firstFailingCall ?o batches' 0 of
                    None \<Rightarrow> batches'
                  | Some k \<Rightarrow> take (Suc k) batches')"
      "isl r' = (firstFailingCall ?o batches' 0 \<noteq> None)"
    by blast
  from y(1) bo have bb': "batches' = [[''a''], [''b''], [''c'']]" by simp
  from y(3) have "calls' = [([''a''], search_document), ([''b''], search_document)]"
    unfolding bb' fo by (simp add: exampleAdapter_simps)
  moreover from y(4) obtain e where "r' = Inl e"
    unfolding bb' fo by (cases r') simp_all
  ultimately have 5: "\<exists>e w'. embedDocuments ?o ?d 0
        = Some (Inl e, [([''a''], search_document), ([''b''], search_document)], w')"
    using y(2) by blast
  from 1 have 1: "\<exists>chunks. batchTexts ?a ?d = Some chunks \<and> int (length chunks) = 2
                    \<and> concat chunks = ?d"
    unfolding c .
  from h ho 1 3 5 show ?thesis by blast
qed

subsection \<open>Length and order of the result\<close>

text \<open>
  Claim C4, amended. Let the effective batch size be at least 1 and the input non-empty,
  and let every remote call that is made for the batches of the input, each in the state
  that the call before it left, answer with an array that holds, for each text of its batch
  and in the order of the batch, a vector related to that text by \<open>R\<close>. Then
  \<open>embedDocuments\<close> returns a list of vectors as long as the input, whose vector number \<open>i\<close>
  is related by \<open>R\<close> to the input text number \<open>i\<close>.
\<close>

theorem embedDocuments_length_order:
  assumes "1 \<le> batchSize a"
    and "documents \<noteq> []"
    and "\<forall>batches. batchTexts a documents = Some batches \<longrightarrow> wellServed a R batches w"
  shows "\<exists>vs calls w'. embedDocuments a documents w = Some (Inr vs, calls, w')
           \<and> length vs = length documents
           \<and> list_all2 R documents vs"
proof -
  let ?bs = "chunksOf (nat (batchSize a)) documents"
  from assms(1) have n: "0 < nat (batchSize a)" by simp
  have b: "batchTexts a documents = Some ?bs"
    by (rule batchTexts_positive[OF assms(1)])
  with assms(3) have "wellServed a R ?bs w" by blast
  from embedBatches_wellServed[OF this, of "[]" "[]"] obtain vs cs w' where
    e: "embedBatches a ?bs [] [] w = (Inr vs, cs, w')" and r: "list_all2 R (concat ?bs) vs"
    by auto
  from r have r': "list_all2 R documents vs" by (simp only: concat_chunksOf[OF n])
  then have "length vs = length documents" by (simp add: list_all2_lengthD)
  moreover from e assms(2) b have "embedDocuments a documents w = Some (Inr vs, cs, w')"
    by (simp add: embedDocuments_def)
  ultimately show ?thesis using r' by blast
qed

theorem embedDocuments_length_order_witness:
  "1 \<le> batchSize (exampleAdapter (Some 2) (outageClient 5))
   \<and> [''a'', ''bb'', ''ccc''] \<noteq> []
   \<and> batchTexts (exampleAdapter (Some 2) (outageClient 5)) [''a'', ''bb'', ''ccc'']
       = Some [[''a'', ''bb''], [''ccc'']]
   \<and> wellServed (exampleAdapter (Some 2) (outageClient 5))
       (\<lambda>t v. v = JArr [JNum (int (length t))]) [[''a'', ''bb''], [''ccc'']] 0
   \<and> (\<exists>vs calls w'.
         embedDocuments (exampleAdapter (Some 2) (outageClient 5)) [''a'', ''bb'', ''ccc''] 0
           = Some (Inr vs, calls, w')
         \<and> length vs = 3
         \<and> list_all2 (\<lambda>t v. v = JArr [JNum (int (length t))]) [''a'', ''bb'', ''ccc''] vs)"
proof -
  let ?a = "exampleAdapter (Some 2) (outageClient 5)"
  let ?R = "\<lambda>t v. v = JArr [JNum (int (length t))]"
  let ?d = "[''a'', ''bb'', ''ccc'']"
  have h1: "1 \<le> batchSize ?a" by (simp add: exampleAdapter_simps)
  have h2: "?d \<noteq> []" by simp
  have b: "batchTexts ?a ?d = Some [[''a'', ''bb''], [''ccc'']]"
    by (simp add: batchTexts_positive exampleAdapter_simps chunksOf_step chunksOf_Nil)
  have s: "wellServed ?a ?R [[''a'', ''bb''], [''ccc'']] 0"
    by (simp add: exampleAdapter_simps outage_call)
  from b s have h3: "\<forall>batches. batchTexts ?a ?d = Some batches \<longrightarrow> wellServed ?a ?R batches 0"
    by simp
  from embedDocuments_length_order[OF h1 h2 h3] h1 b s show ?thesis
    by (simp add: numeral_3_eq_3)
qed

text \<open>
  With a batch size of zero the claim as it is stated fails, although the service answers
  every call with one vector per text: \<open>embedDocuments\<close> never returns on a non-empty input.
\<close>

theorem embedDocuments_length_order_counterexample:
  "batchSize (exampleAdapter (Some 0) echoClient :: (unit, int) CohereBedrockEmbeddings) = 0
   \<and> caller (exampleAdapter (Some 0) echoClient :: (unit, int) CohereBedrockEmbeddings)
       (invokeCohere (exampleAdapter (Some 0) echoClient) [''a''] search_document) ()
     = (Inr (JArr [JArr [JNum 1]]), ())
   \<and> embedDocuments (exampleAdapter (Some 0) echoClient :: (unit, int) CohereBedrockEmbeddings)
       [''a''] () = None"
  by (simp add: exampleAdapter_simps echo_call embedDocuments_def batchTexts_diverges)

subsection \<open>Queries and documents\<close>







subsection \<open>The request\<close>

text \<open>
  Claim C6. For every batch and input type, \<open>invokeCohere\<close> sends to the client one
  command: it is addressed to the configured model, and its body has the three fields
  \<open>texts\<close>, \<open>input_type\<close> and \<open>truncate\<close>, where \<open>texts\<close> is the batch with every newline
  of every string replaced by one space, \<open>input_type\<close> is the given type and \<open>truncate\<close> is
  the configured policy. The cleaned strings contain no newline.
\<close>

theorem invokeCohere_request:
  "invokeCohere a ts inputType w =
     (case client a
        \<lparr> modelId = model a,
          body = \<lparr> texts = map (map (\<lambda>c. if c = CHR 0x0A then CHR '' '' else c)) ts,
                   input_type = inputType,
                   truncate' = a_truncate a \<rparr>,
          contentType = ''application/json'',
          accept = ''application/json'' \<rparr> w of
        (Inl e, w') \<Rightarrow> (Inl e, w')
      | (Inr parsed, w') \<Rightarrow> (extractEmbeddings parsed, w'))
   \<and> texts (body (buildCommand a ts inputType))
       = map (map (\<lambda>c. if c = CHR 0x0A then CHR '' '' else c)) ts
   \<and> input_type (body (buildCommand a ts inputType)) = inputType
   \<and> truncate' (body (buildCommand a ts inputType)) = a_truncate a
   \<and> modelId (buildCommand a ts inputType) = model a
   \<and> list_all (\<lambda>t. CHR 0x0A \<notin> set t) (texts (body (buildCommand a ts inputType)))"
proof -
  have m: "replaceNewlines = map (\<lambda>c. if c = CHR 0x0A then CHR '' '' else c)"
    by (rule ext) (rule replaceNewlines_map)
  show ?thesis
    by (auto simp: invokeCohere_def buildCommand_def m list_all_iff)
qed

subsection \<open>Empty input\<close>

text \<open>
  Claim C7. \<open>embedDocuments\<close> applied to the empty list returns the empty list at once: the
  result is a success, no remote call is issued, and the state is the one it started from.
\<close>

theorem embedDocuments_empty:
  "embedDocuments a [] w = Some (Inr [], [], w)"
  by (simp add: embedDocuments_def)

subsection \<open>The batch size set by the constructor\<close>

text \<open>
  Claim C8. The effective batch size is the minimum of the requested one and 96, it is 96
  when none is requested, and a request of 200 yields 96.
\<close>

theorem constructor_batchSize_clamp:
  "batchSize (constructor superCaller newClient (params\<lparr>p_batchSize := Some b\<rparr>))
     = min b 96
   \<and> batchSize (constructor superCaller newClient (params\<lparr>p_batchSize := None\<rparr>))
     = 96
   \<and> batchSize (constructor superCaller newClient (params\<lparr>p_batchSize := Some 200\<rparr>))
     = 96"
  by (simp add: constructor_def)

subsection \<open>Termination of the batching loop\<close>

text \<open>
  Claim C9. The constructor bounds the batch size from above only: a requested size of
  at most 96, zero and the negative ones included, is kept as it is. With an effective
  batch size of zero or less and a non-empty input, \<open>batchTexts\<close> never returns, and neither
  does \<open>embedDocuments\<close>. With an effective batch size of at least 1, both return on every
  input.
\<close>

theorem batchSize_termination:
  "(b \<le> 96 \<longrightarrow>
      batchSize (constructor superCaller newClient (params\<lparr>p_batchSize := Some b\<rparr>)) = b)
   \<and> (batchSize a \<le> 0 \<and> documents \<noteq> [] \<longrightarrow>
        batchTexts a documents = None \<and> embedDocuments a documents w = None)
   \<and> (1 \<le> batchSize a \<longrightarrow>
        (\<exists>batches. batchTexts a documents = Some batches)
        \<and> (\<exists>result. embedDocuments a documents w = Some result))"
proof (intro conjI impI)
  assume "b \<le> 96"
  then show "batchSize (constructor superCaller newClient
                (params\<lparr>p_batchSize := Some b\<rparr>)) = b"
    by (simp add: constructor_def)
next
  assume h: "batchSize a \<le> 0 \<and> documents \<noteq> []"
  then show "batchTexts a documents = None"
    by (simp add: batchTexts_diverges)
  with h show "embedDocuments a documents w = None"
    by (simp add: embedDocuments_def)
next
  assume h: "1 \<le> batchSize a"
  then show "\<exists>batches. batchTexts a documents = Some batches"
    by (simp add: batchTexts_positive)
  from h show "\<exists>result. embedDocuments a documents w = Some result"
    by (simp add: embedDocuments_def batchTexts_positive del: split_paired_Ex)
qed

theorem batchSize_termination_witness:
  "(0::int) \<le> 96
   \<and> batchSize (constructor directCaller (echoClient :: (unit, int) BedrockRuntimeClient)
       (exampleParams\<lparr>p_batchSize := Some 0\<rparr>)) = 0
   \<and> batchSize (exampleAdapter (Some 0) echoClient :: (unit, int) CohereBedrockEmbeddings) \<le> 0
   \<and> [''a''] \<noteq> []
   \<and> batchTexts (exampleAdapter (Some 0) echoClient :: (unit, int) CohereBedrockEmbeddings) [''a'']
       = None
   \<and> embedDocuments (exampleAdapter (Some 0) echoClient) [''a''] () = None
   \<and> 1 \<le> batchSize (exampleAdapter (Some 1) echoClient :: (unit, int) CohereBedrockEmbeddings)
   \<and> (\<exists>batches. batchTexts (exampleAdapter (Some 1) echoClient :: (unit, int) CohereBedrockEmbeddings)
         [''a''] = Some batches)
   \<and> (\<exists>result. embedDocuments (exampleAdapter (Some 1) echoClient) [''a''] () = Some result)"
proof -
  let ?z = "exampleAdapter (Some 0) echoClient :: (unit, int) CohereBedrockEmbeddings"
  let ?p = "exampleAdapter (Some 1) echoClient :: (unit, int) CohereBedrockEmbeddings"
  have hz: "batchSize ?z \<le> 0 \<and> [''a''] \<noteq> []" by (simp add: exampleAdapter_simps)
  have hp: "1 \<le> batchSize ?p" by (simp add: exampleAdapter_simps)
  have hb: "(0::int) \<le> 96" by simp
  from batchSize_termination[of 0 directCaller "echoClient :: (unit, int) BedrockRuntimeClient"
      exampleParams ?z "[''a'']" "()"] hz hb
  have z: "batchSize (constructor directCaller
             (echoClient :: (unit, int) BedrockRuntimeClient)
             (exampleParams\<lparr>p_batchSize := Some 0\<rparr>)) = 0"
    "batchTexts ?z [''a''] = None" "embedDocuments ?z [''a''] () = None"
    by blast+
  from batchSize_termination[of 0 directCaller "echoClient :: (unit, int) BedrockRuntimeClient"
      exampleParams ?p "[''a'']" "()"] hp
  have p: "\<exists>batches. batchTexts ?p [''a''] = Some batches"
    "\<exists>result. embedDocuments ?p [''a''] () = Some result"
    by blast+
  from z p hz hp hb show ?thesis by blast
qed

subsection \<open>The first element of an empty answer\<close>

text \<open>
  Claim C10. \<open>embedQuery\<close> reads element 0 of the vector list that the remote call
  returns, without a check of its length: for a non-empty list it returns the first
  vector, and for an empty list it succeeds and returns \<open>undefined\<close>.
\<close>

theorem embedQuery_first_element:
  assumes "caller a (invokeCohere a [query] (inputTypeQuery a)) w = (Inr (JArr xs), w')"
  shows "embedQuery a query w
           = (Inr (case xs of [] \<Rightarrow> JUndefined | x # rest \<Rightarrow> x),
              [([query], inputTypeQuery a)], w')"
  using assms by (cases xs) (simp_all add: embedQuery_def)

theorem embedQuery_first_element_witness:
  "caller (exampleAdapter None emptyClient :: (unit, int) CohereBedrockEmbeddings)
     (invokeCohere (exampleAdapter None emptyClient) [''q'']
        (inputTypeQuery (exampleAdapter None emptyClient :: (unit, int) CohereBedrockEmbeddings))) ()
     = (Inr (JArr []), ())
   \<and> embedQuery (exampleAdapter None emptyClient) ''q'' ()
     = (Inr JUndefined, [([''q''], search_query)], ())
   \<and> caller (exampleAdapter None echoClient :: (unit, int) CohereBedrockEmbeddings)
     (invokeCohere (exampleAdapter None echoClient) [''q'']
        (inputTypeQuery (exampleAdapter None echoClient :: (unit, int) CohereBedrockEmbeddings))) ()
     = (Inr (JArr [JArr [JNum 1]]), ())
   \<and> embedQuery (exampleAdapter None echoClient) ''q'' ()
     = (Inr (JArr [JNum 1]), [([''q''], search_query)], ())"
proof -
  let ?a = "exampleAdapter None emptyClient :: (unit, int) CohereBedrockEmbeddings"
  let ?b = "exampleAdapter None echoClient :: (unit, int) CohereBedrockEmbeddings"
  have h: "caller ?a (invokeCohere ?a [''q''] (inputTypeQuery ?a)) () = (Inr (JArr []), ())"
    by (simp add: exampleAdapter_simps empty_call)
  have g: "caller ?b (invokeCohere ?b [''q''] (inputTypeQuery ?b)) ()
             = (Inr (JArr [JArr [JNum 1]]), ())"
    by (simp add: exampleAdapter_simps echo_call)
  from embedQuery_first_element[OF h] embedQuery_first_element[OF g] h g show ?thesis
    by (simp add: exampleAdapter_simps)
qed

end
